theory Spec2Isabelle
  imports Main "HOL-Library.AList"
begin

section \<open>The collaboration client of examples/react/components/editor/ot/client.ts\<close>

text \<open>
  The class \<open>OTClient\<close> is embedded as a record of its fields together with the pending
  \<open>setTimeout\<close> callbacks and a trace of everything the client does to the outside
  (events emitted to the application, frames sent, calls to the editor engine, socket and
  timer calls). Every method and every listener is a function from client states to client
  states. What the outside world supplies (the clock, the roster the engine reports,
  whether a library call throws) is an argument of the function that reads it.

  What lies outside the class is taken as follows. The inherited \<open>EventEmitter\<close> keeps
  the application's listeners; the state records for which events there is one, since
  \<open>emit\<close> of an \<open>error\<close> event that nobody listens to throws. The listeners themselves
  are the application's and are taken not to throw. The socket is the reconnecting
  socket of \<open>connect\<close>: it keeps the \<open>message\<close> listeners added to it and runs every
  one of them on each frame it receives. An \<open>id\<close> is an integer, as the collaboration
  server assigns it.
\<close>

subsection \<open>Values, participants, constants\<close>

text \<open>JavaScript values of type \<open>any\<close>, as far as the client passes them on.\<close>

datatype jsval =
    JUndefined
  | JNull
  | JBool bool
  | JNum int
  | JStr string
  | JArr "jsval list"
  | JObj "(string \<times> jsval) list"

text \<open>
  What \<open>color\<close> can hold after \<open>normalizeMembers\<close> has read it from its plain object
  \<open>colorMap\<close>: a string, or the value that every object inherits from
  \<open>Object.prototype\<close> under the given name.
\<close>

datatype colorv = Color string | Inherited string

text \<open>
  The type \<open>Member\<close>. The field \<open>id\<close> is written \<open>id'\<close>; the optional \<open>color\<close> is
  \<open>None\<close> when it is \<open>undefined\<close>.
\<close>

record Member =
  id' :: int
  avatar :: string
  name :: string
  iid :: int
  uuid :: string
  color :: "colorv option"

text \<open>
  A member as the engine reports it in \<open>engine.ot.getMembers()\<close>, with the two fields
  that \<open>normalizeMembers\<close> reads: \<open>user.uuid\<close> and \<open>user.color\<close>.
\<close>

record User =
  user_uuid :: string
  user_color :: "string option"

definition STATUS_init :: string where "STATUS_init = ''init''"
definition STATUS_loaded :: string where "STATUS_loaded = ''loaded''"
definition STATUS_active :: string where "STATUS_active = ''active''"
definition STATUS_exit :: string where "STATUS_exit = ''exit''"
definition STATUS_error :: string where "STATUS_error = ''error''"

definition EVENT_inactive :: string where "EVENT_inactive = ''inactive''"
definition EVENT_error :: string where "EVENT_error = ''error''"
definition EVENT_membersChange :: string where "EVENT_membersChange = ''membersChange''"
definition EVENT_statusChange :: string where "EVENT_statusChange = ''statusChange''"
definition EVENT_message :: string where "EVENT_message = ''message''"

text \<open>The type \<open>ERROR\<close>; \<open>error\<close> is the optional transport event that caused it.\<close>

record ERROR =
  code :: string
  level :: string
  message :: string
  error :: "jsval option"

definition ERROR_CODE_DISCONNECTED :: string where
  "ERROR_CODE_DISCONNECTED = ''DISCONNECTED''"
definition ERROR_CODE_CONNECTION_ERROR :: string where
  "ERROR_CODE_CONNECTION_ERROR = ''CONNECTION_ERROR''"
definition FORCE_DISCONNECTED :: int where
  "FORCE_DISCONNECTED = 4002"
definition ERROR_LEVEL_FATAL :: string where
  "ERROR_LEVEL_FATAL = ''FATAL''"

text \<open>The two message literals of the close and error listeners, as their UTF-8 bytes.\<close>

definition message_disconnected :: string where
  "message_disconnected =
    [CHR 0xE7, CHR 0xBD, CHR 0x91, CHR 0xE7, CHR 0xBB, CHR 0x9C, CHR 0xE8, CHR 0xBF, CHR 0x9E,
     CHR 0xE6, CHR 0x8E, CHR 0xA5, CHR 0xE5, CHR 0xBC, CHR 0x82, CHR 0xE5, CHR 0xB8, CHR 0xB8,
     CHR 0xEF, CHR 0xBC, CHR 0x8C, CHR 0xE6, CHR 0x97, CHR 0xA0, CHR 0xE6, CHR 0xB3, CHR 0x95,
     CHR 0xE7, CHR 0xBB, CHR 0xA7, CHR 0xE7, CHR 0xBB, CHR 0xAD, CHR 0xE7, CHR 0xBC, CHR 0x96,
     CHR 0xE8, CHR 0xBE, CHR 0x91]"

definition message_connection_error :: string where
  "message_connection_error =
    [CHR 0xE5, CHR 0x8D, CHR 0x8F, CHR 0xE4, CHR 0xBD, CHR 0x9C, CHR 0xE6, CHR 0x9C, CHR 0x8D,
     CHR 0xE5, CHR 0x8A, CHR 0xA1, CHR 0xE5, CHR 0xBC, CHR 0x82, CHR 0xE5, CHR 0xB8, CHR 0xB8,
     CHR 0xEF, CHR 0xBC, CHR 0x8C, CHR 0xE6, CHR 0x97, CHR 0xA0, CHR 0xE6, CHR 0xB3, CHR 0x95,
     CHR 0xE7, CHR 0xBB, CHR 0xA7, CHR 0xE7, CHR 0xBB, CHR 0xAD, CHR 0xE7, CHR 0xBC, CHR 0x96,
     CHR 0xE8, CHR 0xBE, CHR 0x91]"

subsection \<open>Effects and the client state\<close>

text \<open>The second argument of \<open>emit\<close>: an object literal, a roster, an error, a participant.\<close>

datatype payload =
    PObject "(string \<times> jsval) list"
  | PMembers "Member list"
  | PError ERROR
  | PMember "Member option"
  | PNone

text \<open>
  What the client does to its surroundings, in the order it does it. Sockets and timers
  are named by handles. \<open>Send k action data\<close> is
  \<open>socket.send(JSON.stringify({action, data}))\<close> on socket \<open>k\<close>, with \<open>data\<close> the object
  before serialisation; \<open>SocketClose k None\<close> is \<open>close()\<close> without arguments.
\<close>

datatype effect =
    Emit string payload
  | Send nat string "(string \<times> jsval) list"
  | SocketClose nat "(int \<times> string) option"
  | ClearTimeout nat
  | ConsoleLog string
  | EngineSetMembers "Member list"
  | EngineAddMember Member
  | EngineRemoveMember Member
  | EngineSetCurrentMember Member
  | EngineInit string "string option"
  | EngineFocus
  | DocSubscribe string string

text \<open>
  The callbacks handed to \<open>setTimeout\<close>: the heartbeat check with the \<open>millisecond\<close>
  it closes over, and the delayed roster announcement of \<open>addMembers\<close>.
\<close>

datatype task = HeartbeatTick int | MembersChangeLater

record Heartbeat =
  timeout :: nat
  datetime :: int

text \<open>
  The fields of \<open>OTClient\<close> in the order of the class; \<open>doc\<close> holds the id of the
  document object. \<open>timers\<close> are the pending timeouts (handle, delay, callback),
  \<open>next_timer\<close> the handle the next \<open>setTimeout\<close> returns. \<open>listeners\<close> are the
  \<open>message\<close> listeners added so far, each with the socket it was added to and the
  \<open>docID\<close> and \<open>collectionName\<close> it closes over. \<open>handlers\<close> are the events for which
  the application has registered a listener with the inherited \<open>on\<close>, one entry per
  listener.
\<close>

record client =
  socket :: "nat option"
  members :: "Member list"
  current :: "Member option"
  status :: "string option"
  doc :: "string option"
  isClosed :: bool
  heartbeat :: "Heartbeat option"
  timers :: "(nat \<times> nat \<times> task) list"
  next_timer :: nat
  listeners :: "(nat \<times> string \<times> string) list"
  handlers :: "string list"
  trace :: "effect list"

text \<open>The field initialisers and the constructor.\<close>

definition OTClient_new :: client where
  "OTClient_new =
    \<lparr> socket = None, members = [], current = None, status = None, doc = None,
      isClosed = True, heartbeat = None, timers = [], next_timer = 1,
      listeners = [], handlers = [], trace = [] \<rparr>"

definition perform :: "effect \<Rightarrow> client \<Rightarrow> client" where
  "perform e s = s\<lparr>trace := trace s @ [e]\<rparr>"

text \<open>
  A call either returns or throws; both carry the state the client is left in.
\<close>

datatype 'a outcome = Returns 'a | Throws 'a

fun state_of :: "'a outcome \<Rightarrow> 'a" where
  "state_of (Returns s) = s"
| "state_of (Throws s) = s"

text \<open>The inherited \<open>on\<close> and \<open>off\<close>, as far as they decide whether an event is heard.\<close>

definition on :: "string \<Rightarrow> client \<Rightarrow> client" where
  "on ev s = s\<lparr>handlers := handlers s @ [ev]\<rparr>"

definition off :: "string \<Rightarrow> client \<Rightarrow> client" where
  "off ev s = s\<lparr>handlers := remove1 ev (handlers s)\<rparr>"

text \<open>
  The inherited \<open>emit\<close>: an \<open>error\<close> event without a listener is thrown, nothing is
  delivered; any other call delivers the event to whoever listens and returns.
\<close>

definition emit :: "string \<Rightarrow> payload \<Rightarrow> client \<Rightarrow> client outcome" where
  "emit ev p s =
    (if ev = ''error'' \<and> ''error'' \<notin> set (handlers s) then Throws s
     else Returns (perform (Emit ev p) s))"

definition setTimeout :: "task \<Rightarrow> nat \<Rightarrow> client \<Rightarrow> nat \<times> client" where
  "setTimeout t delay s =
    (next_timer s,
     s\<lparr>timers := timers s @ [(next_timer s, delay, t)], next_timer := Suc (next_timer s)\<rparr>)"

definition clearTimeout :: "nat \<Rightarrow> client \<Rightarrow> client" where
  "clearTimeout h s =
    perform (ClearTimeout h) (s\<lparr>timers := filter (\<lambda>p. fst p \<noteq> h) (timers s)\<rparr>)"

text \<open>The effects performed between an earlier state and a later one.\<close>

definition effects_since :: "client \<Rightarrow> client \<Rightarrow> effect list" where
  "effects_since s s' = drop (length (trace s)) (trace s')"

definition emitted :: "string \<Rightarrow> effect list \<Rightarrow> payload list" where
  "emitted ev es = concat (map (\<lambda>e. case e of Emit ev' p \<Rightarrow> (if ev' = ev then [p] else []) | _ \<Rightarrow> []) es)"

subsection \<open>Presence: normalizeMembers, addMembers, removeMember\<close>

text \<open>
  \<open>colorMap\<close> of \<open>normalizeMembers\<close> is a plain object \<open>{}\<close>, so it inherits the
  properties of \<open>Object.prototype\<close>. The model keeps its own properties, each holding a
  string or \<open>undefined\<close>.
\<close>

definition Object_prototype_names :: "string list" where
  "Object_prototype_names =
    [''constructor'', ''__defineGetter__'', ''__defineSetter__'', ''hasOwnProperty'',
     ''__lookupGetter__'', ''__lookupSetter__'', ''isPrototypeOf'', ''propertyIsEnumerable'',
     ''toString'', ''valueOf'', ''__proto__'', ''toLocaleString'']"

text \<open>
  \<open>colorMap[k] = v\<close>: the assignment creates or replaces the own property \<open>k\<close>, except
  for \<open>__proto__\<close>, whose inherited setter ignores a string and \<open>undefined\<close>.
\<close>

definition colorMap_set ::
  "string \<Rightarrow> string option \<Rightarrow> (string \<rightharpoonup> string option) \<Rightarrow> (string \<rightharpoonup> string option)"
where
  "colorMap_set k v own = (if k = ''__proto__'' then own else own(k \<mapsto> v))"

text \<open>\<open>colorMap[k]\<close>: the own property if there is one, else the inherited one if any.\<close>

definition colorMap_get :: "(string \<rightharpoonup> string option) \<Rightarrow> string \<Rightarrow> colorv option" where
  "colorMap_get own k =
    (case own k of
       Some v \<Rightarrow> map_option Color v
     | None \<Rightarrow> if k \<in> set Object_prototype_names then Some (Inherited k) else None)"

text \<open>
  The map after \<open>users.forEach\<close>: one assignment per user reported by the engine, a
  later one replacing an earlier one for the same uuid.
\<close>

definition colorMap_of :: "User list \<Rightarrow> string \<Rightarrow> colorv option" where
  "colorMap_of users =
    colorMap_get
      (fold (\<lambda>user own. colorMap_set (user_uuid user) (user_color user) own) users Map.empty)"

text \<open>
  The loop \<open>for (let i = this.members.length; i > 0; i--)\<close>; the third argument is
  \<open>i\<close>, so \<open>Suc j\<close> reads \<open>this.members[i - 1]\<close> at \<open>j\<close>. A stored member is an object
  and therefore truthy: \<open>!memberMap[member.id]\<close> holds exactly when the id has no entry.
\<close>

fun normalize_loop ::
  "(string \<Rightarrow> colorv option) \<Rightarrow> Member list \<Rightarrow> nat \<Rightarrow> (int \<rightharpoonup> Member) \<Rightarrow> Member list \<Rightarrow> Member list"
where
  "normalize_loop colorMap ms 0 memberMap out = out"
| "normalize_loop colorMap ms (Suc j) memberMap out =
    (let member = ms ! j in
     if memberMap (id' member) = None then
       (let cloneMember = member\<lparr>color := colorMap (uuid member)\<rparr>
        in normalize_loop colorMap ms j (memberMap(id' member \<mapsto> member)) (out @ [cloneMember]))
     else normalize_loop colorMap ms j memberMap out)"

text \<open>\<open>users\<close> is what \<open>this.engine.ot.getMembers()\<close> returns at the call.\<close>

definition normalizeMembers :: "User list \<Rightarrow> client \<Rightarrow> Member list" where
  "normalizeMembers users s =
    normalize_loop (colorMap_of users) (members s) (length (members s)) Map.empty []"

text \<open>The \<open>forEach\<close> of \<open>addMembers\<close>, on the roster.\<close>

fun addMembers_forEach :: "Member list \<Rightarrow> Member list \<Rightarrow> Member list" where
  "addMembers_forEach [] ms = ms"
| "addMembers_forEach (member # rest) ms =
    (if find (\<lambda>m. id' member = id' m) ms = None
     then addMembers_forEach rest (ms @ [member])
     else addMembers_forEach rest ms)"

definition addMembers :: "Member list \<Rightarrow> client \<Rightarrow> client" where
  "addMembers memberList s =
    snd (setTimeout MembersChangeLater 1000
          (s\<lparr>members := addMembers_forEach memberList (members s)\<rparr>))"

definition removeMember :: "User list \<Rightarrow> Member \<Rightarrow> client \<Rightarrow> client" where
  "removeMember users member s =
    (let s1 = s\<lparr>members := filter (\<lambda>user. uuid user \<noteq> uuid member) (members s)\<rparr>
     in state_of (emit EVENT_membersChange (PMembers (normalizeMembers users s1)) s1))"

subsection \<open>Session status: transmit, onError, isActive, exit, disconnect\<close>

definition of_status :: "string option \<Rightarrow> jsval" where
  "of_status x = (case x of None \<Rightarrow> JUndefined | Some v \<Rightarrow> JStr v)"

definition transmit :: "string \<Rightarrow> client \<Rightarrow> client" where
  "transmit st s =
    (let prevStatus = status s;
         s1 = s\<lparr>status := Some st\<rparr>
     in state_of
          (emit EVENT_statusChange (PObject [(''form'', of_status prevStatus), (''to'', JStr st)]) s1))"

text \<open>
  \<open>onError\<close> has no \<open>try\<close>: when \<open>emit\<close> throws, the assignment to \<open>status\<close> is not
  reached and the exception leaves \<open>onError\<close> and its caller.
\<close>

definition onError :: "ERROR \<Rightarrow> client \<Rightarrow> client outcome" where
  "onError e s =
    (case emit EVENT_error (PError e) s of
       Throws s1 \<Rightarrow> Throws s1
     | Returns s1 \<Rightarrow> Returns (s1\<lparr>status := Some STATUS_error\<rparr>))"

definition isActive :: "client \<Rightarrow> bool" where
  "isActive s = (status s = Some STATUS_active)"

text \<open>
  \<open>close_throws\<close> says whether \<open>socket.close\<close> throws; then the \<open>catch\<close> logs and the
  timer is not cleared. A timer handle is an object, so \<open>this.heartbeat?.timeout\<close> is
  truthy exactly when there is a heartbeat record.
\<close>

definition disconnect :: "bool \<Rightarrow> client \<Rightarrow> client" where
  "disconnect close_throws s =
    (case socket s of
       None \<Rightarrow> s
     | Some k \<Rightarrow>
        (if close_throws then perform (ConsoleLog ''e'') s
         else
           (let s1 = perform (SocketClose k (Some (FORCE_DISCONNECTED, ''FORCE_DISCONNECTED''))) s
            in case heartbeat s1 of
                 None \<Rightarrow> s1
               | Some hb \<Rightarrow> clearTimeout (timeout hb) s1)))"

definition exit :: "bool \<Rightarrow> client \<Rightarrow> client" where
  "exit close_throws s =
    (if status s \<noteq> Some STATUS_exit
     then disconnect close_throws (transmit STATUS_exit s)
     else s)"

subsection \<open>Outbound messages\<close>

text \<open>
  \<open>{...data, doc_id: this.doc?.id, uuid: this.current?.uuid}\<close>: a key already in
  \<open>data\<close> keeps its place and takes the new value, a new key goes to the end.
\<close>

definition sendMessage :: "string \<Rightarrow> (string \<times> jsval) list \<Rightarrow> client \<Rightarrow> client" where
  "sendMessage action data s =
    (case socket s of
       None \<Rightarrow> s
     | Some k \<Rightarrow>
        perform (Send k action
          (AList.update ''uuid'' (of_status (map_option uuid (current s)))
            (AList.update ''doc_id'' (of_status (doc s)) data))) s)"

definition broadcast :: "string \<Rightarrow> jsval \<Rightarrow> client \<Rightarrow> client" where
  "broadcast type body s =
    sendMessage ''broadcast''
      [(''type'', JStr type), (''body'', if body = JUndefined then JObj [] else body)] s"

subsection \<open>Heartbeat\<close>

text \<open>
  \<open>checkHeartbeat\<close> arms one timeout of 1000 ms whose callback is \<open>heartbeatTick\<close>
  below; the callback closes over \<open>millisecond\<close> and over its own handle \<open>timeout\<close>.
\<close>

definition checkHeartbeat :: "int \<Rightarrow> client \<Rightarrow> client" where
  "checkHeartbeat millisecond s =
    (if socket s = None then s
     else
       (let s1 = (case heartbeat s of
                    None \<Rightarrow> s
                  | Some hb \<Rightarrow> clearTimeout (timeout hb) s)
        in snd (setTimeout (HeartbeatTick millisecond) 1000 s1)))"

text \<open>The callback; \<open>now\<close> is \<open>new Date().getTime()\<close> when it runs.\<close>

definition heartbeatTick :: "int \<Rightarrow> nat \<Rightarrow> int \<Rightarrow> client \<Rightarrow> client" where
  "heartbeatTick millisecond timeout' now s =
    (let s1 =
       (if \<not> isClosed s \<and>
           (case heartbeat s of
              None \<Rightarrow> True
            | Some hb \<Rightarrow> now - datetime hb \<ge> millisecond)
        then (sendMessage ''heartbeat'' [(''time'', JNum now)] s)
               \<lparr>heartbeat := Some \<lparr>timeout = timeout', datetime = now\<rparr>\<rparr>
        else (case heartbeat s of
                None \<Rightarrow> s
              | Some hb \<Rightarrow> s\<lparr>heartbeat := Some (hb\<lparr>timeout := timeout'\<rparr>)\<rparr>))
     in checkHeartbeat millisecond s1)"

text \<open>
  A pending timeout fires: it leaves \<open>timers\<close> and its callback runs. \<open>users\<close> is the
  engine's roster at that moment, read by the delayed announcement of \<open>addMembers\<close>.
\<close>

definition fire :: "nat \<Rightarrow> int \<Rightarrow> User list \<Rightarrow> client \<Rightarrow> client" where
  "fire h now users s =
    (case map_of (timers s) h of
       None \<Rightarrow> s
     | Some (delay, t) \<Rightarrow>
        (let s1 = s\<lparr>timers := filter (\<lambda>p. fst p \<noteq> h) (timers s)\<rparr>
         in case t of
              HeartbeatTick millisecond \<Rightarrow> heartbeatTick millisecond h now s1
            | MembersChangeLater \<Rightarrow>
                state_of (emit EVENT_membersChange (PMembers (normalizeMembers users s1)) s1)))"

subsection \<open>connect and its listeners, load\<close>

text \<open>The control envelope after \<open>JSON.parse\<close>, by its \<open>action\<close>.\<close>

datatype envelope =
    Members "Member list"
  | Join Member
  | Leave Member
  | Ready Member
  | Broadcast "string option" jsval jsval
  | Other string

text \<open>\<open>Broadcast u body type\<close> is \<open>data = {uuid: u, body, type}\<close>, a missing uuid being \<open>None\<close>.\<close>

definition load :: "string \<Rightarrow> string \<Rightarrow> client \<Rightarrow> client" where
  "load docId collectionName s =
    perform (DocSubscribe collectionName docId) (s\<lparr>doc := Some docId\<rparr>)"

text \<open>
  The callback of \<open>doc.subscribe\<close>. \<open>init_throws\<close> says whether \<open>engine.ot.init\<close>
  throws, \<open>currentMember\<close> is what \<open>engine.ot.getCurrentMember()\<close> returns.
\<close>

definition subscribed ::
  "string \<Rightarrow> string option \<Rightarrow> bool \<Rightarrow> bool \<Rightarrow> Member option \<Rightarrow> User list \<Rightarrow> client \<Rightarrow> client"
where
  "subscribed docId defaultValue err init_throws currentMember users s =
    (if err then perform (ConsoleLog ''collab doc subscribe error'') s
     else if init_throws then perform (ConsoleLog ''am-engine init failed:'') s
     else
       (let s1 = perform (EngineInit docId defaultValue) s;
            s2 = perform EngineFocus s1;
            s3 = state_of (emit ''ready'' (PMember currentMember) s2);
            s4 = state_of (emit EVENT_membersChange (PMembers (normalizeMembers users s3)) s3)
        in transmit STATUS_active s4))"

text \<open>
  \<open>connect\<close> closes the socket it has and creates a new one with the listeners below;
  \<open>this.socket\<close> is assigned only when the new socket opens.
\<close>

definition connect :: "client \<Rightarrow> client" where
  "connect s = (case socket s of None \<Rightarrow> s | Some k \<Rightarrow> perform (SocketClose k None) s)"

text \<open>
  The \<open>open\<close> listener of the socket with handle \<open>k\<close>, created by a \<open>connect\<close> call
  with the given \<open>docID\<close> and \<open>collectionName\<close>. It runs at every open of that socket,
  the first and each one after a reconnection, and each time adds one more \<open>message\<close>
  listener to the socket.
\<close>

definition onOpen :: "nat \<Rightarrow> string \<Rightarrow> string \<Rightarrow> client \<Rightarrow> client" where
  "onOpen k docID collectionName s =
    checkHeartbeat 30000
      (s\<lparr>socket := Some k, isClosed := False,
         listeners := listeners s @ [(k, docID, collectionName)]\<rparr>)"

text \<open>
  One run of one \<open>message\<close> listener on a parsed envelope. \<open>docID\<close> and
  \<open>collectionName\<close> are those the listener closes over.
\<close>

definition onMessage :: "string \<Rightarrow> string \<Rightarrow> User list \<Rightarrow> envelope \<Rightarrow> client \<Rightarrow> client" where
  "onMessage docID collectionName users msg s =
    (case msg of
       Members data \<Rightarrow> perform (EngineSetMembers data) (addMembers data s)
     | Join data \<Rightarrow> perform (EngineAddMember data) (addMembers [data] s)
     | Leave data \<Rightarrow> removeMember users data (perform (EngineRemoveMember data) s)
     | Ready data \<Rightarrow>
         load docID collectionName (perform (EngineSetCurrentMember data) (s\<lparr>current := Some data\<rparr>))
     | Broadcast uuid' body type \<Rightarrow>
         (if uuid' \<noteq> map_option uuid (current s)
          then state_of (emit EVENT_message (PObject [(''type'', type), (''body'', body)]) s)
          else s)
     | Other action \<Rightarrow> s)"

text \<open>
  A frame arrives on socket \<open>k\<close>: the socket runs the \<open>message\<close> listeners added to it,
  in the order they were added. \<open>users i\<close> is what the engine reports during run \<open>i\<close>.
\<close>

fun run_listeners ::
  "(nat \<times> string \<times> string) list \<Rightarrow> nat \<Rightarrow> (nat \<Rightarrow> User list) \<Rightarrow> envelope \<Rightarrow> nat \<Rightarrow> client \<Rightarrow> client"
where
  "run_listeners [] k users msg i s = s"
| "run_listeners ((k', docID, collectionName) # rest) k users msg i s =
    (if k' = k
     then run_listeners rest k users msg (Suc i) (onMessage docID collectionName (users i) msg s)
     else run_listeners rest k users msg i s)"

definition onFrame :: "nat \<Rightarrow> (nat \<Rightarrow> User list) \<Rightarrow> envelope \<Rightarrow> client \<Rightarrow> client" where
  "onFrame k users msg s = run_listeners (listeners s) k users msg 0 s"

definition onClose :: "client \<Rightarrow> client outcome" where
  "onClose s =
    (if status s \<noteq> Some STATUS_exit
     then onError \<lparr>code = ERROR_CODE_DISCONNECTED, level = ERROR_LEVEL_FATAL,
                   message = message_disconnected, error = None\<rparr> s
     else Returns s)"

definition onSocketError :: "jsval \<Rightarrow> client \<Rightarrow> client outcome" where
  "onSocketError error' s =
    onError \<lparr>code = ERROR_CODE_CONNECTION_ERROR, level = ERROR_LEVEL_FATAL,
             message = message_connection_error, error = Some error'\<rparr> s"

text \<open>The \<open>visibilitychange\<close> listener of \<open>bindEvents\<close> when the page is hidden.\<close>

definition onHidden :: "client \<Rightarrow> client" where
  "onHidden s = state_of (emit EVENT_inactive PNone s)"

subsection \<open>Reachable states\<close>

text \<open>
  The states a client can be in: a new client, changed by its methods, its listeners and
  its timers in any order and with any arguments. A listener that throws leaves the
  client in the state it had reached. A frame is a sequence of runs of \<open>onMessage\<close>.
\<close>

inductive reachable :: "client \<Rightarrow> bool" where
  r_new: "reachable OTClient_new"
| r_connect: "reachable s \<Longrightarrow> reachable (connect s)"
| r_on: "reachable s \<Longrightarrow> reachable (on ev s)"
| r_off: "reachable s \<Longrightarrow> reachable (off ev s)"
| r_onOpen: "reachable s \<Longrightarrow> reachable (onOpen k docID collectionName s)"
| r_onMessage: "reachable s \<Longrightarrow> reachable (onMessage docID collectionName users msg s)"
| r_onClose: "reachable s \<Longrightarrow> reachable (state_of (onClose s))"
| r_onSocketError: "reachable s \<Longrightarrow> reachable (state_of (onSocketError ev' s))"
| r_onHidden: "reachable s \<Longrightarrow> reachable (onHidden s)"
| r_subscribed:
    "reachable s \<Longrightarrow> reachable (subscribed docId defaultValue err init_throws cur users s)"
| r_fire: "reachable s \<Longrightarrow> reachable (fire h now users s)"
| r_checkHeartbeat: "reachable s \<Longrightarrow> reachable (checkHeartbeat millisecond s)"
| r_load: "reachable s \<Longrightarrow> reachable (load docId collectionName s)"
| r_broadcast: "reachable s \<Longrightarrow> reachable (broadcast type body s)"
| r_sendMessage: "reachable s \<Longrightarrow> reachable (sendMessage action data s)"
| r_addMembers: "reachable s \<Longrightarrow> reachable (addMembers memberList s)"
| r_removeMember: "reachable s \<Longrightarrow> reachable (removeMember users member s)"
| r_transmit: "reachable s \<Longrightarrow> reachable (transmit st s)"
| r_onError: "reachable s \<Longrightarrow> reachable (state_of (onError e s))"
| r_exit: "reachable s \<Longrightarrow> reachable (exit close_throws s)"
| r_disconnect: "reachable s \<Longrightarrow> reachable (disconnect close_throws s)"

subsection \<open>Invariants and observations\<close>

text \<open>A client that is marked open has a socket: both are set together by \<open>onOpen\<close>.\<close>

definition socket_inv :: "client \<Rightarrow> bool" where
  "socket_inv s = (isClosed s \<or> socket s \<noteq> None)"

text \<open>Every pending timeout carries a handle that \<open>setTimeout\<close> has already given out.\<close>

definition timers_inv :: "client \<Rightarrow> bool" where
  "timers_inv s = list_all (\<lambda>p. fst p < next_timer s) (timers s)"

text \<open>The sockets closed and the timers cleared in a run of effects.\<close>

definition socket_closes :: "effect list \<Rightarrow> nat list" where
  "socket_closes es = [k. SocketClose k c \<leftarrow> es]"

definition timer_clears :: "effect list \<Rightarrow> nat list" where
  "timer_clears es = [h. ClearTimeout h \<leftarrow> es]"

text \<open>Reading a property of an object payload, as a listener does with \<open>payload.key\<close>.\<close>

definition payload_field :: "string \<Rightarrow> payload \<Rightarrow> jsval option" where
  "payload_field k p = (case p of PObject kvs \<Rightarrow> map_of kvs k | _ \<Rightarrow> None)"

subsection \<open>Sample data\<close>

text \<open>
  Two participants of one account; a client whose socket 7 has just opened; a client
  with a listener for \<open>error\<close> whose socket 7 has opened, received \<open>ready\<close> for \<open>mA\<close>,
  closed and opened again, and a frame for it, broadcast by another participant.
\<close>

definition mA :: Member where
  "mA = \<lparr>id' = 1, avatar = ''a.png'', name = ''Ann'', iid = 1, uuid = ''u1'', color = None\<rparr>"

definition mA' :: Member where
  "mA' = \<lparr>id' = 1, avatar = ''b.png'', name = ''Bob'', iid = 2, uuid = ''u2'', color = None\<rparr>"

definition opened :: client where
  "opened = onOpen 7 ''doc'' ''yanmao'' OTClient_new"

definition reopened :: client where
  "reopened =
    onOpen 7 ''doc'' ''yanmao''
      (state_of (onClose
        (onFrame 7 (\<lambda>i. []) (Ready mA)
          (onOpen 7 ''doc'' ''yanmao'' (connect (on ''error'' OTClient_new))))))"

definition hello :: envelope where
  "hello = Broadcast (Some ''u2'') (JStr ''hi'') (JStr ''chat'')"

section \<open>Properties\<close>

subsection \<open>Unfolding and invariants of reachable states\<close>

text \<open>
  \<open>emit\<close> can only throw an \<open>error\<close> event. The class emits that one in \<open>onError\<close>
  alone; every other \<open>emit\<close> of the class has another constant for its event and
  returns.
\<close>

lemma emit_Returns: "ev \<noteq> ''error'' \<Longrightarrow> emit ev p s = Returns (perform (Emit ev p) s)"
  by (simp add: emit_def)

lemma emit_heard:
  "''error'' \<in> set (handlers s) \<Longrightarrow> emit ev p s = Returns (perform (Emit ev p) s)"
  by (simp add: emit_def)

lemma emit_class_events [simp]:
  "emit EVENT_statusChange p s = Returns (perform (Emit EVENT_statusChange p) s)"
  "emit EVENT_membersChange p s = Returns (perform (Emit EVENT_membersChange p) s)"
  "emit EVENT_message p s = Returns (perform (Emit EVENT_message p) s)"
  "emit EVENT_inactive p s = Returns (perform (Emit EVENT_inactive p) s)"
  "emit ''ready'' p s = Returns (perform (Emit ''ready'' p) s)"
  by (simp_all add: emit_def EVENT_statusChange_def EVENT_membersChange_def
      EVENT_message_def EVENT_inactive_def)

lemma state_of_onError:
  "state_of (onError e s) =
     (if ''error'' \<in> set (handlers s)
      then s\<lparr>status := Some STATUS_error, trace := trace s @ [Emit EVENT_error (PError e)]\<rparr>
      else s)"
  by (simp add: onError_def emit_def perform_def EVENT_error_def)

lemmas client_defs = perform_def setTimeout_def clearTimeout_def on_def off_def
  addMembers_def removeMember_def transmit_def state_of_onError disconnect_def exit_def
  sendMessage_def broadcast_def checkHeartbeat_def heartbeatTick_def fire_def load_def
  subscribed_def connect_def onOpen_def onMessage_def onClose_def onSocketError_def onHidden_def

lemma reachable_socket_inv: "reachable s \<Longrightarrow> socket_inv s"
proof (induction rule: reachable.induct)
  case r_new
  show ?case by (simp add: socket_inv_def OTClient_new_def)
qed (auto simp: socket_inv_def client_defs Let_def
      split: option.splits envelope.splits task.splits if_splits)

lemma reachable_timers_inv: "reachable s \<Longrightarrow> timers_inv s"
proof (induction rule: reachable.induct)
  case r_new
  show ?case by (simp add: timers_inv_def OTClient_new_def)
qed (auto simp: timers_inv_def list_all_iff client_defs Let_def
      split: option.splits envelope.splits task.splits if_splits)

lemma effects_since_append [simp]: "effects_since s (s\<lparr>trace := trace s @ es\<rparr>) = es"
  by (simp add: effects_since_def)

lemma effects_since_self [simp]: "effects_since s s = []"
  by (simp add: effects_since_def)

subsection \<open>The roster under addMembers\<close>

lemma find_None_id: "(find (\<lambda>m. i = id' m) ms = None) = (i \<notin> set (map id' ms))"
  by (induction ms) auto

lemma addMembers_forEach_distinct:
  "distinct (map id' ms) \<Longrightarrow> distinct (map id' (addMembers_forEach l ms))"
  by (induction l arbitrary: ms) (auto simp: find_None_id)

lemma addMembers_forEach_present:
  "set (map id' l) \<subseteq> set (map id' ms) \<Longrightarrow> addMembers_forEach l ms = ms"
  by (induction l arbitrary: ms) (auto simp: find_None_id)

lemma members_addMembers:
  "members (addMembers l s) = addMembers_forEach l (members s)"
  by (simp add: addMembers_def setTimeout_def)

lemma trace_addMembers: "trace (addMembers l s) = trace s"
  by (simp add: addMembers_def setTimeout_def)

lemma addMembers_distinct:
  "distinct (map id' (members s)) \<Longrightarrow> distinct (map id' (members (addMembers l s)))"
  by (simp add: members_addMembers addMembers_forEach_distinct)

lemma fold_addMembers_distinct:
  "distinct (map id' (members s)) \<Longrightarrow> distinct (map id' (members (fold addMembers ls s)))"
  by (induction ls arbitrary: s) (auto simp: addMembers_distinct)

text \<open>
  C1. Whatever lists of participants a new client is given, in whatever number of
  \<open>addMembers\<close> calls, its roster has no two entries with the same id.
\<close>

theorem C1_roster_ids_distinct:
  "distinct (map id' (members (fold addMembers calls OTClient_new)))"
  by (rule fold_addMembers_distinct) (simp add: OTClient_new_def)

text \<open>
  The same holds in every reachable state: the only other change to the roster is the
  filter of \<open>removeMember\<close>.
\<close>

lemma reachable_roster_distinct: "reachable s \<Longrightarrow> distinct (map id' (members s))"
proof (induction rule: reachable.induct)
  case r_new
  show ?case by (simp add: OTClient_new_def)
next
  case (r_addMembers s memberList)
  show ?case using r_addMembers.IH by (rule addMembers_distinct)
next
  case (r_removeMember s users member)
  then show ?case
    by (simp add: removeMember_def perform_def Let_def distinct_map_filter)
next
  case (r_onMessage s docID collectionName users msg)
  then show ?case
    by (cases msg)
       (simp_all add: onMessage_def members_addMembers addMembers_forEach_distinct
          find_None_id removeMember_def load_def perform_def Let_def distinct_map_filter)
qed (auto simp: client_defs Let_def split: option.splits task.splits if_splits)

text \<open>
  C3. Two participants \<open>A\<close> and \<open>A'\<close> with the same id and some other difference, added
  in one call to a roster that has no entry with that id: the roster grows by \<open>A\<close> alone,
  and \<open>A'\<close> is not in it.
\<close>

theorem C3_first_entry_kept:
  assumes "id' A = id' A'" and "A \<noteq> A'" and "id' A \<notin> id' ` set (members s)"
  shows "members (addMembers [A, A'] s) = members s @ [A] \<and>
         A' \<notin> set (members (addMembers [A, A'] s))"
proof -
  have a: "find (\<lambda>m. id' A = id' m) (members s) = None"
    using assms(3) by (simp add: find_None_id)
  have b: "find (\<lambda>m. id' A' = id' m) (members s @ [A]) \<noteq> None"
    using assms(1) by (simp add: find_None_id)
  have m: "members (addMembers [A, A'] s) = members s @ [A]"
    using a b by (simp add: members_addMembers)
  have "A' \<notin> set (members s)"
    using assms(1,3) by force
  then show ?thesis using m assms(2) by simp
qed

theorem C3_first_entry_kept_witness:
  "id' mA = id' mA' \<and> mA \<noteq> mA' \<and> id' mA \<notin> id' ` set (members OTClient_new) \<and>
   members (addMembers [mA, mA'] OTClient_new) = [mA] \<and>
   mA' \<notin> set (members (addMembers [mA, mA'] OTClient_new))"
  using C3_first_entry_kept [of mA mA' OTClient_new]
  by (simp add: mA_def mA'_def OTClient_new_def)

subsection \<open>The roster as read out by normalizeMembers\<close>

text \<open>
  C4. A roster \<open>[X, Y]\<close> whose two entries have the same id is read out as one entry: it
  is \<open>Y\<close>, with the color the engine reports for the uuid of \<open>Y\<close> in place of the
  stored one. Color aside, the output has the fields of \<open>Y\<close> and, where \<open>X\<close> differs
  from \<open>Y\<close> in another field, no entry has the fields of \<open>X\<close>.
\<close>

theorem C4_last_entry_wins:
  assumes "members s = [X, Y]" and "id' X = id' Y"
    and "X\<lparr>color := None\<rparr> \<noteq> Y\<lparr>color := None\<rparr>"
  shows "normalizeMembers users s = [Y\<lparr>color := colorMap_of users (uuid Y)\<rparr>] \<and>
         (\<exists>e \<in> set (normalizeMembers users s). e\<lparr>color := None\<rparr> = Y\<lparr>color := None\<rparr>) \<and>
         (\<forall>e \<in> set (normalizeMembers users s). e\<lparr>color := None\<rparr> \<noteq> X\<lparr>color := None\<rparr>)"
proof -
  have n: "normalizeMembers users s = [Y\<lparr>color := colorMap_of users (uuid Y)\<rparr>]"
    using assms(1,2) by (simp add: normalizeMembers_def numeral_2_eq_2)
  show ?thesis using assms(3) by (auto simp: n)
qed

theorem C4_last_entry_wins_witness:
  "members (OTClient_new\<lparr>members := [mA, mA']\<rparr>) = [mA, mA'] \<and> id' mA = id' mA' \<and>
   mA\<lparr>color := None\<rparr> \<noteq> mA'\<lparr>color := None\<rparr> \<and>
   normalizeMembers
       [\<lparr>user_uuid = ''u1'', user_color = Some ''red''\<rparr>,
        \<lparr>user_uuid = ''u2'', user_color = Some ''blue''\<rparr>]
       (OTClient_new\<lparr>members := [mA, mA']\<rparr>)
     = [mA'\<lparr>color := Some (Color ''blue'')\<rparr>]"
  using C4_last_entry_wins [of "OTClient_new\<lparr>members := [mA, mA']\<rparr>" mA mA'
      "[\<lparr>user_uuid = ''u1'', user_color = Some ''red''\<rparr>,
        \<lparr>user_uuid = ''u2'', user_color = Some ''blue''\<rparr>]"]
  by (simp add: mA_def mA'_def OTClient_new_def colorMap_of_def colorMap_get_def
      colorMap_set_def)

lemma normalize_loop_uuids:
  "n \<le> length ms \<Longrightarrow>
   uuid ` set (normalize_loop cm ms n mm out) \<subseteq> uuid ` set out \<union> uuid ` set ms"
proof (induction n arbitrary: mm out)
  case 0
  then show ?case by simp
next
  case (Suc n)
  let ?m = "ms ! n"
  let ?c = "?m\<lparr>color := cm (uuid ?m)\<rparr>"
  have le: "n \<le> length ms" using Suc.prems by simp
  have "?m \<in> set ms" using Suc.prems by simp
  then have u: "uuid ?c \<in> uuid ` set ms" by simp
  show ?case
  proof (cases "mm (id' ?m) = None")
    case True
    have "uuid ` set (normalize_loop cm ms n (mm(id' ?m \<mapsto> ?m)) (out @ [?c]))
            \<subseteq> uuid ` set (out @ [?c]) \<union> uuid ` set ms"
      by (rule Suc.IH [OF le])
    also have "\<dots> \<subseteq> uuid ` set out \<union> uuid ` set ms"
      using u by auto
    finally show ?thesis using True by (simp add: Let_def)
  next
    case False
    then obtain y where "mm (id' ?m) = Some y" by blast
    then have "normalize_loop cm ms (Suc n) mm out = normalize_loop cm ms n mm out"
      by (simp add: Let_def)
    then show ?thesis using Suc.IH [OF le, of mm out] by simp
  qed
qed

lemma normalizeMembers_uuids:
  "uuid ` set (normalizeMembers users s) \<subseteq> uuid ` set (members s)"
  using normalize_loop_uuids [of "length (members s)" "members s" "colorMap_of users" Map.empty "[]"]
  by (simp add: normalizeMembers_def)

lemma normalizeMembers_cong:
  "members s = members s' \<Longrightarrow> normalizeMembers users s = normalizeMembers users s'"
  by (simp add: normalizeMembers_def)

lemma members_removeMember:
  "members (removeMember users p s) = filter (\<lambda>user. uuid user \<noteq> uuid p) (members s)"
  by (simp add: removeMember_def Let_def perform_def)

text \<open>
  C5. After \<open>removeMember p\<close>, from any state and whatever the engine reports then or
  later, \<open>normalizeMembers\<close> returns no entry with the uuid of \<open>p\<close>.
\<close>

theorem C5_removed_uuid_absent:
  "uuid p \<notin> uuid ` set (normalizeMembers users' (removeMember users p s))"
proof -
  have "uuid p \<notin> uuid ` set (members (removeMember users p s))"
    by (auto simp: members_removeMember)
  then show ?thesis
    using normalizeMembers_uuids [of users' "removeMember users p s"] by blast
qed

lemma map_of_fresh:
  "list_all (\<lambda>p. fst p < (n::nat)) ts \<Longrightarrow> map_of (ts @ [(n, v)]) n = Some v"
  by (induction ts) auto

text \<open>
  C10. In a reachable state \<open>addMembers\<close> arms one more timeout of 1000 ms for the
  roster announcement, whatever the list, and does nothing else that shows. When that
  timeout fires the client emits \<open>membersChange\<close> with the normalized roster. A list
  whose ids are all in the roster already (the empty list among them) leaves the roster
  as it was, and the timeout is armed all the same.
\<close>

theorem C10_addMembers_always_schedules:
  assumes "reachable s"
  shows "timers (addMembers l s) = timers s @ [(next_timer s, 1000, MembersChangeLater)] \<and>
         effects_since s (addMembers l s) = [] \<and>
         effects_since (addMembers l s) (fire (next_timer s) now users (addMembers l s))
           = [Emit EVENT_membersChange (PMembers (normalizeMembers users (addMembers l s)))] \<and>
         (set (map id' l) \<subseteq> set (map id' (members s)) \<longrightarrow>
            members (addMembers l s) = members s)"
proof -
  have "timers_inv s" using assms by (rule reachable_timers_inv)
  then have f: "map_of (timers s @ [(next_timer s, 1000, MembersChangeLater)]) (next_timer s)
                  = Some (1000, MembersChangeLater)"
    unfolding timers_inv_def by (rule map_of_fresh)
  have t: "timers (addMembers l s) = timers s @ [(next_timer s, 1000, MembersChangeLater)]"
    by (simp add: addMembers_def setTimeout_def)
  have n: "normalizeMembers users
             ((addMembers l s)\<lparr>timers := filter (\<lambda>p. fst p \<noteq> next_timer s) (timers (addMembers l s))\<rparr>)
           = normalizeMembers users (addMembers l s)"
    by (rule normalizeMembers_cong) simp
  have e: "effects_since (addMembers l s) (fire (next_timer s) now users (addMembers l s))
           = [Emit EVENT_membersChange (PMembers (normalizeMembers users (addMembers l s)))]"
    using f n unfolding fire_def t [symmetric]
    by (simp add: t perform_def effects_since_def Let_def)
  show ?thesis
    using t e by (simp add: effects_since_def trace_addMembers members_addMembers
        addMembers_forEach_present)
qed

theorem C10_addMembers_always_schedules_witness:
  "reachable (addMembers [mA] OTClient_new) \<and>
   members (addMembers [mA] (addMembers [mA] OTClient_new)) = [mA] \<and>
   members (addMembers [] (addMembers [mA] OTClient_new)) = [mA] \<and>
   timers (addMembers [mA] (addMembers [mA] OTClient_new))
     = [(1, 1000, MembersChangeLater), (2, 1000, MembersChangeLater)] \<and>
   effects_since (addMembers [mA] (addMembers [mA] OTClient_new))
       (fire 2 0 [] (addMembers [mA] (addMembers [mA] OTClient_new)))
     = [Emit EVENT_membersChange (PMembers [mA])]"
proof -
  have r: "reachable (addMembers [mA] OTClient_new)"
    by (rule r_addMembers) (rule r_new)
  have m: "members (addMembers [mA] OTClient_new) = [mA]"
      "timers (addMembers [mA] OTClient_new) = [(1, 1000, MembersChangeLater)]"
      "next_timer (addMembers [mA] OTClient_new) = 2"
    by (simp_all add: addMembers_def setTimeout_def OTClient_new_def)
  have z: "normalizeMembers [] (addMembers [mA] (addMembers [mA] OTClient_new)) = [mA]"
    by (simp add: normalizeMembers_def members_addMembers OTClient_new_def colorMap_of_def
        colorMap_get_def Object_prototype_names_def mA_def)
  show ?thesis
    using C10_addMembers_always_schedules [OF r, of "[mA]" 0 "[]"]
          C10_addMembers_always_schedules [OF r, of "[]" 0 "[]"] r m z
    by simp
qed

subsection \<open>Status changes, exit and errors\<close>

lemma transmit_emits:
  "transmit st s =
     s\<lparr>status := Some st,
       trace := trace s @
         [Emit EVENT_statusChange (PObject [(''form'', of_status (status s)), (''to'', JStr st)])]\<rparr>"
  by (simp add: transmit_def perform_def Let_def)

text \<open>
  C2. \<open>transmit\<close> emits one \<open>statusChange\<close> event on every call, and its payload has the
  new status under \<open>to\<close>. The previous status is stored under the key \<open>form\<close>: for a
  client that goes from \<open>active\<close> to \<open>exit\<close> the payload is
  \<open>{form: 'active', to: 'exit'}\<close>, and reading \<open>from\<close> of it gives nothing.
\<close>

theorem C2_statusChange_payload_key:
  "effects_since (transmit STATUS_active OTClient_new)
       (transmit STATUS_exit (transmit STATUS_active OTClient_new))
     = [Emit EVENT_statusChange (PObject [(''form'', JStr ''active''), (''to'', JStr ''exit'')])] \<and>
   payload_field ''from'' (PObject [(''form'', JStr ''active''), (''to'', JStr ''exit'')]) = None \<and>
   payload_field ''to'' (PObject [(''form'', JStr ''active''), (''to'', JStr ''exit'')])
     = Some (JStr ''exit'')"
  by (simp add: transmit_emits effects_since_def payload_field_def of_status_def
      STATUS_active_def STATUS_exit_def)

lemma status_exit: "status (exit t s) = Some STATUS_exit"
  by (simp add: exit_def disconnect_def transmit_def perform_def clearTimeout_def
      Let_def split: option.splits)

lemma exit_exit: "exit t2 (exit t1 s) = exit t1 s"
  using status_exit [of t1 s] by (simp add: exit_def [of t2])

lemma exit_trace:
  "\<exists>es. trace (exit t s) = trace s @ es \<and>
        length (emitted EVENT_statusChange es) \<le> 1 \<and>
        length (socket_closes es) \<le> 1 \<and> length (timer_clears es) \<le> 1"
  by (simp add: exit_def disconnect_def transmit_def perform_def clearTimeout_def
      Let_def emitted_def socket_closes_def timer_clears_def split: option.splits)

text \<open>
  C6. A second \<open>exit\<close> right after a first one changes nothing: the state, its status and
  its trace stay as the first call left them, so no \<open>statusChange\<close> is emitted by it.
  Over both calls together the client emits at most one \<open>statusChange\<close>, closes the
  socket at most once and clears the heartbeat timeout at most once, whether or not
  \<open>socket.close\<close> throws.
\<close>

theorem C6_exit_idempotent:
  "exit t2 (exit t1 s) = exit t1 s \<and>
   effects_since (exit t1 s) (exit t2 (exit t1 s)) = [] \<and>
   trace (exit t2 (exit t1 s)) = trace s @ effects_since s (exit t2 (exit t1 s)) \<and>
   length (emitted EVENT_statusChange (effects_since s (exit t2 (exit t1 s)))) \<le> 1 \<and>
   length (socket_closes (effects_since s (exit t2 (exit t1 s)))) \<le> 1 \<and>
   length (timer_clears (effects_since s (exit t2 (exit t1 s)))) \<le> 1"
proof -
  obtain es where es: "trace (exit t1 s) = trace s @ es"
    and n: "length (emitted EVENT_statusChange es) \<le> 1"
      "length (socket_closes es) \<le> 1" "length (timer_clears es) \<le> 1"
    using exit_trace [of t1 s] by blast
  have "effects_since s (exit t1 s) = es"
    by (simp add: effects_since_def es)
  then show ?thesis using es n by (simp add: exit_exit)
qed

theorem C6_exit_idempotent_witness:
  "effects_since (transmit STATUS_active (fire 1 5 [] opened))
      (exit False (exit False (transmit STATUS_active (fire 1 5 [] opened))))
     = [Emit ''statusChange'' (PObject [(''form'', JStr ''active''), (''to'', JStr ''exit'')]),
        SocketClose 7 (Some (4002, ''FORCE_DISCONNECTED'')),
        ClearTimeout 1] \<and>
   status (exit False (exit False (transmit STATUS_active (fire 1 5 [] opened)))) = Some ''exit''"
proof -
  define s where "s = transmit STATUS_active (fire 1 5 [] opened)"
  have e: "exit False s =
           s\<lparr>status := Some ''exit'', timers := [(2, 1000, HeartbeatTick 30000)],
              trace := trace s @
                [Emit ''statusChange'' (PObject [(''form'', JStr ''active''), (''to'', JStr ''exit'')]),
                 SocketClose 7 (Some (4002, ''FORCE_DISCONNECTED'')),
                 ClearTimeout 1]\<rparr>"
    unfolding s_def
    by (simp add: opened_def OTClient_new_def client_defs emit_def Let_def of_status_def
        STATUS_active_def STATUS_exit_def EVENT_statusChange_def FORCE_DISCONNECTED_def)
  have i: "exit False (exit False s) = exit False s"
    using C6_exit_idempotent [of False False s] by (rule conjunct1)
  have "effects_since s (exit False (exit False s))
          = [Emit ''statusChange'' (PObject [(''form'', JStr ''active''), (''to'', JStr ''exit'')]),
             SocketClose 7 (Some (4002, ''FORCE_DISCONNECTED'')),
             ClearTimeout 1] \<and>
        status (exit False (exit False s)) = Some ''exit''"
    unfolding i by (simp add: e effects_since_def)
  then show ?thesis unfolding s_def .
qed




subsection \<open>Broadcasts received\<close>

text \<open>
  One run of one message listener on a \<open>broadcast\<close> envelope \<open>{uuid, type, body}\<close>: when
  \<open>uuid\<close> is the uuid of the current participant the client is left as it was;
  otherwise the only change is one \<open>message\<close> event whose payload is \<open>{type, body}\<close>
  with the values received.
\<close>

lemma onMessage_broadcast:
  "onMessage docID collectionName users (Broadcast u body type) s =
     (if u = map_option uuid (current s) then s
      else s\<lparr>trace := trace s @ [Emit EVENT_message (PObject [(''type'', type), (''body'', body)])]\<rparr>)"
  by (simp add: onMessage_def perform_def)

text \<open>
  A frame runs every listener the socket has, so a broadcast of another participant
  gives as many \<open>message\<close> events as listeners were added to the socket: one for each
  time it has opened.
\<close>

lemma run_listeners_broadcast:
  "run_listeners ls k users (Broadcast u body type) i s =
     (if u = map_option uuid (current s) then s
      else s\<lparr>trace := trace s @
             replicate (length (filter (\<lambda>l. fst l = k) ls))
               (Emit EVENT_message (PObject [(''type'', type), (''body'', body)]))\<rparr>)"
proof (cases "u = map_option uuid (current s)")
  case True
  have "run_listeners ls k users (Broadcast u body type) i s = s" for i
  proof (induction ls arbitrary: i)
    case Nil
    show ?case by simp
  next
    case (Cons l ls)
    obtain k' d c where l: "l = (k', d, c)" by (cases l)
    have m: "onMessage d c (users i) (Broadcast u body type) s = s"
      using True by (simp add: onMessage_broadcast)
    show ?case by (simp add: l m Cons.IH)
  qed
  then show ?thesis using True by simp
next
  case False
  let ?e = "Emit EVENT_message (PObject [(''type'', type), (''body'', body)])"
  have "current s' = current s \<Longrightarrow>
        run_listeners ls k users (Broadcast u body type) i s' =
          s'\<lparr>trace := trace s' @ replicate (length (filter (\<lambda>l. fst l = k) ls)) ?e\<rparr>"
    for i s'
  proof (induction ls arbitrary: i s')
    case Nil
    show ?case by simp
  next
    case (Cons l ls)
    obtain k' d c where l: "l = (k', d, c)" by (cases l)
    let ?s1 = "s'\<lparr>trace := trace s' @ [?e]\<rparr>"
    have m: "onMessage d c (users i) (Broadcast u body type) s' = ?s1"
      using False Cons.prems by (simp add: onMessage_broadcast)
    have c1: "current ?s1 = current s" using Cons.prems by simp
    show ?case
    proof (cases "k' = k")
      case True
      have "run_listeners (l # ls) k users (Broadcast u body type) i s' =
            run_listeners ls k users (Broadcast u body type) (Suc i) ?s1"
        by (simp add: l True m)
      also have "\<dots> = ?s1\<lparr>trace := trace ?s1 @ replicate (length (filter (\<lambda>l. fst l = k) ls)) ?e\<rparr>"
        by (rule Cons.IH [OF c1])
      also have "\<dots> = s'\<lparr>trace := trace s' @ replicate (length (filter (\<lambda>l. fst l = k) (l # ls))) ?e\<rparr>"
        by (simp add: l True)
      finally show ?thesis .
    next
      case False
      then show ?thesis using Cons.IH [OF Cons.prems] by (simp add: l)
    qed
  qed
  then show ?thesis using False by simp
qed

lemma onFrame_broadcast:
  "emitted EVENT_message (effects_since s (onFrame k users (Broadcast u body type) s)) =
     (if u = map_option uuid (current s) then []
      else replicate (length (filter (\<lambda>l. fst l = k) (listeners s)))
             (PObject [(''type'', type), (''body'', body)]))"
proof -
  have r: "\<And>n p. emitted EVENT_message (replicate n (Emit EVENT_message p)) = replicate n p"
    subgoal for n p by (induction n) (simp_all add: emitted_def)
    done
  show ?thesis
    by (simp add: onFrame_def run_listeners_broadcast r emitted_def)
qed

lemma reachable_run_listeners:
  "reachable s \<Longrightarrow> reachable (run_listeners ls k users msg i s)"
proof (induction ls arbitrary: i s)
  case Nil
  then show ?case by simp
next
  case (Cons l ls)
  obtain k' d c where l: "l = (k', d, c)" by (cases l)
  have "reachable (onMessage d c (users i) msg s)"
    using Cons.prems by (rule r_onMessage)
  then show ?case using Cons.IH Cons.prems by (simp add: l)
qed

lemma reachable_onFrame: "reachable s \<Longrightarrow> reachable (onFrame k users msg s)"
  by (simp add: onFrame_def reachable_run_listeners)

lemma listeners_onOpen:
  "listeners (onOpen k docID collectionName s) = listeners s @ [(k, docID, collectionName)]"
  by (simp add: onOpen_def checkHeartbeat_def setTimeout_def clearTimeout_def perform_def
      Let_def split: option.splits)

text \<open>
  C7. A client listens for \<open>error\<close> and connects; socket 7 opens, the server names
  the client \<open>mA\<close> (uuid \<open>u1\<close>), the connection drops and the socket opens again. The
  next frame is a broadcast \<open>{uuid: 'u2', type: 'chat', body: 'hi'}\<close> of another
  participant. The socket now has two message listeners, and the one frame gives
  two \<open>message\<close> events \<open>{type: 'chat', body: 'hi'}\<close>, not one.
\<close>

theorem C7_broadcast_twice_after_reconnect:
  "reachable reopened \<and>
   current reopened = Some mA \<and> Some ''u2'' \<noteq> map_option uuid (current reopened) \<and>
   emitted EVENT_message (effects_since reopened (onFrame 7 (\<lambda>i. []) hello reopened))
     = [PObject [(''type'', JStr ''chat''), (''body'', JStr ''hi'')],
        PObject [(''type'', JStr ''chat''), (''body'', JStr ''hi'')]]"
proof -
  have c: "current reopened = Some mA"
    by (simp add: reopened_def OTClient_new_def client_defs onFrame_def emit_def Let_def
        EVENT_error_def)
  have l: "listeners reopened = [(7, ''doc'', ''yanmao''), (7, ''doc'', ''yanmao'')]"
    by (simp add: reopened_def OTClient_new_def client_defs onFrame_def emit_def Let_def
        EVENT_error_def)
  have r: "reachable reopened"
    unfolding reopened_def
    by (intro r_onOpen r_onClose reachable_onFrame r_connect r_on r_new)
  show ?thesis
    by (simp add: r c l hello_def onFrame_broadcast mA_def)
qed

subsection \<open>The first heartbeat\<close>

lemma fire_heartbeat_first:
  assumes t: "map_of (timers s) h = Some (d, HeartbeatTick ms)"
    and k: "socket s = Some k" and o: "\<not> isClosed s" and n: "heartbeat s = None"
  shows "effects_since s (fire h now users s) =
           [Send k ''heartbeat''
              [(''time'', JNum now), (''doc_id'', of_status (doc s)),
               (''uuid'', of_status (map_option uuid (current s)))],
            ClearTimeout h]"
    and "heartbeat (fire h now users s) = Some \<lparr>timeout = h, datetime = now\<rparr>"
  using assms
  by (simp_all add: fire_def heartbeatTick_def sendMessage_def checkHeartbeat_def
      clearTimeout_def setTimeout_def perform_def effects_since_def Let_def)

text \<open>
  C9. In a reachable state that is marked open and has no heartbeat record, a pending
  heartbeat timeout that fires at time \<open>now\<close> sends one \<open>heartbeat\<close> message carrying
  \<open>now\<close> on the client's socket and records \<open>now\<close> as the time of the last heartbeat.
\<close>

theorem C9_first_tick_sends:
  assumes "reachable s" and "map_of (timers s) h = Some (d, HeartbeatTick ms)"
    and "\<not> isClosed s" and "heartbeat s = None"
  shows "\<exists>k. socket s = Some k \<and>
           effects_since s (fire h now users s) =
             [Send k ''heartbeat''
                [(''time'', JNum now), (''doc_id'', of_status (doc s)),
                 (''uuid'', of_status (map_option uuid (current s)))],
              ClearTimeout h] \<and>
           heartbeat (fire h now users s) = Some \<lparr>timeout = h, datetime = now\<rparr>"
proof -
  have "socket_inv s" using assms(1) by (rule reachable_socket_inv)
  then obtain k where k: "socket s = Some k"
    using assms(3) by (auto simp: socket_inv_def)
  show ?thesis
    using fire_heartbeat_first [OF assms(2) k assms(3,4)] k by simp
qed

theorem C9_first_tick_sends_witness:
  "reachable opened \<and> map_of (timers opened) 1 = Some (1000, HeartbeatTick 30000) \<and>
   \<not> isClosed opened \<and> heartbeat opened = None \<and>
   effects_since opened (fire 1 1700000000000 [] opened) =
     [Send 7 ''heartbeat''
        [(''time'', JNum 1700000000000), (''doc_id'', JUndefined), (''uuid'', JUndefined)],
      ClearTimeout 1] \<and>
   heartbeat (fire 1 1700000000000 [] opened) = Some \<lparr>timeout = 1, datetime = 1700000000000\<rparr>"
proof -
  have r: "reachable opened"
    unfolding opened_def by (rule r_onOpen) (rule r_new)
  have t: "map_of (timers opened) 1 = Some (1000, HeartbeatTick 30000)"
    by (simp add: opened_def onOpen_def checkHeartbeat_def setTimeout_def OTClient_new_def)
  have o: "\<not> isClosed opened"
    by (simp add: opened_def onOpen_def checkHeartbeat_def setTimeout_def OTClient_new_def)
  have n: "heartbeat opened = None"
    by (simp add: opened_def onOpen_def checkHeartbeat_def setTimeout_def OTClient_new_def)
  have k: "socket opened = Some 7" "doc opened = None" "current opened = None"
    by (simp_all add: opened_def onOpen_def checkHeartbeat_def setTimeout_def OTClient_new_def)
  show ?thesis
    using C9_first_tick_sends [OF r t o n, of 1700000000000 "[]"] r t o n k
    by (simp add: of_status_def)
qed

end
